theory Spec2Isabelle
  imports Main "HOL-Library.Sublist"
begin

section \<open>Python string primitives used by the publisher\<close>

text \<open>
  Strings are \<open>char list\<close>. The case mapping and the whitespace test are the ASCII
  parts of Python's \<open>str.lower\<close> and \<open>str.isspace\<close>; other characters are
  left as they are.
\<close>

definition lower_char :: "char \<Rightarrow> char" where
  "lower_char c =
     (let n = (of_char c :: nat) in if 65 \<le> n \<and> n \<le> 90 then char_of (n + 32) else c)"

definition lower :: "string \<Rightarrow> string" where
  "lower s = map lower_char s"

definition is_space :: "char \<Rightarrow> bool" where
  "is_space c =
     (let n = (of_char c :: nat) in (9 \<le> n \<and> n \<le> 13) \<or> (28 \<le> n \<and> n \<le> 32))"

definition strip :: "string \<Rightarrow> string" where
  "strip s = rev (dropWhile is_space (rev (dropWhile is_space s)))"

text \<open>\<open>s.split(sep)\<close> for a one-character separator: never the empty list.\<close>

fun split_char :: "char \<Rightarrow> string \<Rightarrow> string list" where
  "split_char sep [] = [[]]"
| "split_char sep (c # cs) =
     (if c = sep then [] # split_char sep cs
      else (case split_char sep cs of
              [] \<Rightarrow> [[c]]
            | w # ws \<Rightarrow> (c # w) # ws))"

text \<open>\<open>s.split(sep, 1)\<close>: one piece when the separator is absent, two otherwise.\<close>

definition split_once :: "char \<Rightarrow> string \<Rightarrow> string list" where
  "split_once sep s =
     (case dropWhile (\<lambda>c. c \<noteq> sep) s of
        [] \<Rightarrow> [s]
      | _ # rest \<Rightarrow> [takeWhile (\<lambda>c. c \<noteq> sep) s, rest])"

definition startswith :: "string \<Rightarrow> string \<Rightarrow> bool" where
  "startswith s p = (take (length p) s = p)"

fun join :: "string \<Rightarrow> string list \<Rightarrow> string" where
  "join sep [] = []"
| "join sep [x] = x"
| "join sep (x # y # ys) = x @ sep @ join sep (y # ys)"

text \<open>\<open>sub in s\<close> on strings: \<open>sub\<close> starts at some position of \<open>s\<close>.\<close>

fun contains :: "string \<Rightarrow> string \<Rightarrow> bool" where
  "contains [] sub = (sub = [])"
| "contains (c # cs) sub = (startswith (c # cs) sub \<or> contains cs sub)"

datatype py_error = IndexError

section \<open>Keyword matcher\<close>

text \<open>
  \<open>match_keywords(title, description, keywords)\<close>. The keyword argument may be
  \<open>None\<close> (\<open>keywords or []\<close>).
\<close>

definition match_keywords :: "string \<Rightarrow> string \<Rightarrow> string list option \<Rightarrow> string list" where
  "match_keywords title description keywords =
     (let text = lower (title @ '' '' @ description)
      in filter (\<lambda>kw. contains text (lower kw))
           (case keywords of None \<Rightarrow> [] | Some ks \<Rightarrow> ks))"

section \<open>Description parsing\<close>

text \<open>The comprehension \<open>[n.strip() for n in s.split(sep) if n.strip()]\<close>.\<close>

definition stripped_parts :: "char \<Rightarrow> string \<Rightarrow> string list" where
  "stripped_parts sep s = filter (\<lambda>n. n \<noteq> []) (map strip (split_char sep s))"

text \<open>\<open>line.split(":", 1)[1].strip()\<close>; the index raises when there is no colon.\<close>

definition after_colon :: "string \<Rightarrow> py_error + string" where
  "after_colon line =
     (case split_once CHR '':'' line of
        [_, rest] \<Rightarrow> Inr (strip rest)
      | _ \<Rightarrow> Inl IndexError)"

text \<open>
  The loop of \<open>extract_authors_and_abstract\<close> over the stripped non-empty lines, with
  its three variables \<open>authors\<close>, \<open>abstract_lines\<close> and \<open>found\<close>.
\<close>

fun authors_loop ::
  "string list \<Rightarrow> string list \<Rightarrow> string list \<Rightarrow> bool \<Rightarrow>
   py_error + (string list \<times> string list)" where
  "authors_loop [] authors abstract_lines found = Inr (authors, abstract_lines)"
| "authors_loop (line # lines) authors abstract_lines found =
     (if startswith (lower line) ''authors:'' then
        (case after_colon line of
           Inl e \<Rightarrow> Inl e
         | Inr names \<Rightarrow> authors_loop lines (stripped_parts CHR '','' names) abstract_lines True)
      else if found then authors_loop lines authors (abstract_lines @ [line]) found
      else authors_loop lines authors abstract_lines found)"

definition extract_authors_and_abstract :: "string \<Rightarrow> py_error + (string list \<times> string)" where
  "extract_authors_and_abstract description =
     (if description = [] then Inr ([], [])
      else
        let lines = stripped_parts (CHR 0x0A) description
        in (case authors_loop lines [] [] False of
              Inl e \<Rightarrow> Inl e
            | Inr (authors, abstract_lines) \<Rightarrow>
                Inr (authors,
                     if abstract_lines = [] then join '' '' lines
                     else join '' '' abstract_lines)))"

fun categories_loop :: "string list \<Rightarrow> py_error + string list" where
  "categories_loop [] = Inr []"
| "categories_loop (line # lines) =
     (let l = strip line
      in if startswith (lower l) ''categories:'' then
           (case after_colon l of
              Inl e \<Rightarrow> Inl e
            | Inr cats \<Rightarrow> Inr (stripped_parts CHR '','' cats))
         else categories_loop lines)"

definition extract_categories_from_description :: "string \<Rightarrow> py_error + string list" where
  "extract_categories_from_description description =
     (if description = [] then Inr []
      else categories_loop (split_char (CHR 0x0A) description))"

section \<open>The remote sink\<close>

text \<open>
  A property object of the remote schema is represented by the value of its \<open>"type"\<close>
  key (\<open>None\<close> when the key is absent), the only part the code reads. Dictionaries
  whose order is the order of insertion are association lists.
\<close>

type_synonym properties_map = "(string \<times> string option) list"

text \<open>
  An item of the parsed feed document: the keys the publisher reads, \<open>None\<close> for a key
  that is absent.
\<close>

record paper =
  guid :: "string option"
  link :: "string option"
  title :: "string option"
  description :: "string option"
  pubDate :: "string option"

text \<open>An entity of the remote listing: its \<open>"id"\<close> and what \<open>get_page_title\<close> reads.\<close>

record page =
  page_id :: string
  page_title :: string

text \<open>
  The requests of the protocol. A create or update request carries the record whose
  property payload the code sends: the payload is computed from the record, the reconciled
  schema and the configuration only, so an answer that depends on the payload is an answer
  that depends on the record and on the earlier calls.
\<close>

datatype request =
    GetDatabase
  | PatchDatabase "(string \<times> string) list"
  | QueryDatabase "string option"
  | CreatePage paper
  | UpdatePage string paper

record response =
  status_code :: int
  body_text :: string
  properties :: properties_map
  results :: "page list"
  next_cursor :: "string option"
  has_more :: bool

text \<open>
  The remote answers each request as a function of the calls made so far. The log of
  calls is threaded through every operation, oldest call first. Every request is answered
  with a response that carries a status; a transport that raises instead is not modelled.
\<close>

type_synonym call = "request \<times> response"
type_synonym remote = "call list \<Rightarrow> request \<Rightarrow> response"

definition send :: "remote \<Rightarrow> call list \<Rightarrow> request \<Rightarrow> response \<times> call list" where
  "send remote log req = (let resp = remote log req in (resp, log @ [(req, resp)]))"

definition get_database_properties :: "remote \<Rightarrow> call list \<Rightarrow> properties_map \<times> call list" where
  "get_database_properties remote log =
     (let (resp, log') = send remote log GetDatabase
      in if status_code resp \<noteq> 200 then ([], log') else (properties resp, log'))"

section \<open>Schema reconciler\<close>

text \<open>\<open>name in properties_map and properties_map[name].get("type") == t\<close>\<close>

definition has_type :: "properties_map \<Rightarrow> string \<Rightarrow> string \<Rightarrow> bool" where
  "has_type properties_map name t =
     (case map_of properties_map name of None \<Rightarrow> False | Some ty \<Rightarrow> ty = Some t)"

text \<open>\<open>need[name] = {t: {}}\<close> on a dictionary kept in insertion order.\<close>

fun dict_set :: "(string \<times> string) list \<Rightarrow> string \<Rightarrow> string \<Rightarrow> (string \<times> string) list" where
  "dict_set [] k v = [(k, v)]"
| "dict_set ((k', v') # d) k v = (if k' = k then (k, v) # d else (k', v') # dict_set d k v)"

definition need_unless ::
  "properties_map \<Rightarrow> string \<Rightarrow> string \<Rightarrow> (string \<times> string) list \<Rightarrow> (string \<times> string) list" where
  "need_unless properties_map name t need =
     (if \<not> has_type properties_map name t then dict_set need name t else need)"

definition ensure_database_properties ::
  "remote \<Rightarrow> call list \<Rightarrow> properties_map \<Rightarrow> properties_map \<times> call list" where
  "ensure_database_properties remote log properties_map =
     (let need = [];
          need = need_unless properties_map ''URL'' ''url'' need;
          need = need_unless properties_map ''Authors'' ''multi_select'' need;
          need = need_unless properties_map ''Date'' ''date'' need;
          need = need_unless properties_map ''Keywords'' ''multi_select'' need;
          need = need_unless properties_map ''Abstract'' ''rich_text'' need;
          need = need_unless properties_map ''ArXiv ID'' ''rich_text'' need
      in if need = [] then (properties_map, log)
         else
           let (resp, log') = send remote log (PatchDatabase need)
           in if status_code resp = 200 then get_database_properties remote log'
              else (properties_map, log'))"

definition guess_notion_type :: "string \<Rightarrow> string" where
  "guess_notion_type field_name =
     (let name = lower field_name
      in if name \<in> {''link''} then ''url''
         else if name \<in> {''pubdate'', ''updated''} then ''date''
         else if name \<in> {''category'', ''keywords'', ''tags''} then ''multi_select''
         else if name \<in> {''title''} then ''title''
         else ''rich_text'')"

text \<open>
  The loop of \<open>ensure_properties_from_xml\<close> over the field names of the feed's first
  item (the result of \<open>parse_first_item_fields\<close>, empty when the document cannot be
  read).
\<close>

fun need_from_fields ::
  "properties_map \<Rightarrow> string list \<Rightarrow> (string \<times> string) list \<Rightarrow> (string \<times> string) list" where
  "need_from_fields properties_map [] need = need"
| "need_from_fields properties_map (f # fs) need =
     (let t = guess_notion_type f
      in if t = ''title'' then need_from_fields properties_map fs need
         else need_from_fields properties_map fs (need_unless properties_map f t need))"

definition ensure_properties_from_xml ::
  "remote \<Rightarrow> call list \<Rightarrow> properties_map \<Rightarrow> string list \<Rightarrow> properties_map \<times> call list" where
  "ensure_properties_from_xml remote log properties_map xml_fields =
     (let need = need_from_fields properties_map xml_fields []
      in if need = [] then (properties_map, log)
         else
           let (resp, log') = send remote log (PatchDatabase need)
           in if status_code resp = 200 then get_database_properties remote log'
              else (properties_map, log'))"

section \<open>Publish ledger\<close>

text \<open>
  A record identity is the value of \<open>paper.get("guid") or paper.get("link")\<close>: a string,
  or \<open>None\<close>. The history document is the JSON object of the ledger file, represented
  by the set of the entries under \<open>"published_guids"\<close> (\<open>None\<close> when the key is
  absent): the code reads the entries through \<open>set(...)\<close> and writes them back through
  \<open>list(...)\<close> of a set, whose order Python leaves open.
\<close>

type_synonym ident = "string option"
type_synonym history = "ident set option"

text \<open>
  The ledger file: absent, holding a complete dump, or holding what a dump that failed
  after the file had been opened for writing left behind (not a JSON document).
\<close>

datatype ledger_file = Missing | Complete history | Damaged

definition load_publish_history :: "ledger_file \<Rightarrow> history" where
  "load_publish_history file =
     (case file of
        Missing \<Rightarrow> Some {}
      | Complete h \<Rightarrow> h
      | Damaged \<Rightarrow> Some {})"

text \<open>
  What the file system does to one \<open>save_publish_history\<close>: nothing, a failure of
  \<open>open(..., "w")\<close> (the file is not touched), or a failure of \<open>json.dump\<close> after
  \<open>open\<close> has truncated the file. The bare \<open>except\<close> turns both failures into the
  return value \<open>False\<close>.
\<close>

datatype write_fault = NoFault | OpenFails | DumpFails

definition save_publish_history :: "write_fault \<Rightarrow> ledger_file \<Rightarrow> history \<Rightarrow> bool \<times> ledger_file" where
  "save_publish_history fault file h =
     (case fault of
        NoFault \<Rightarrow> (True, Complete h)
      | OpenFails \<Rightarrow> (False, file)
      | DumpFails \<Rightarrow> (False, Damaged))"

definition guids_of :: "history \<Rightarrow> ident set" where
  "guids_of h = (case h of None \<Rightarrow> {} | Some s \<Rightarrow> s)"

section \<open>Sink publisher\<close>

definition truthy :: "string option \<Rightarrow> bool" where
  "truthy v = (case v of None \<Rightarrow> False | Some s \<Rightarrow> s \<noteq> [])"

text \<open>\<open>paper.get("guid") or paper.get("link")\<close>\<close>

definition paper_guid :: "paper \<Rightarrow> ident" where
  "paper_guid p = (if truthy (guid p) then guid p else link p)"

text \<open>\<open>paper.get("title", default)\<close>\<close>

definition paper_title :: "paper \<Rightarrow> string \<Rightarrow> string" where
  "paper_title p dflt = (case title p of None \<Rightarrow> dflt | Some t \<Rightarrow> t)"

record config =
  notion_enabled :: bool
  integration_token :: string
  database_id :: string

datatype failure = NotEnabled | MissingCredentials | NoRssFile | NoPapers

text \<open>An entry of the error list: title, status and the first 300 characters of the body.\<close>

type_synonym error_entry = "string \<times> int \<times> string"

definition error_of :: "string \<Rightarrow> response \<Rightarrow> error_entry" where
  "error_of t resp = (t, status_code resp, take 300 (body_text resp))"

text \<open>
  The result dictionaries: \<open>{"success": False, "error": ...}\<close> of an early return, and
  the final one with its success flag, counters and error list.
\<close>

datatype publish_result = Failed failure | Published bool int "error_entry list"

datatype backfill_result = BackfillFailed failure | Backfilled bool int int "error_entry list"

text \<open>
  The loop of \<open>publish_from_latest_rss\<close> with its variables \<open>created\<close>, \<open>errors\<close>
  and \<open>published_guids\<close>, and the log of calls. The first branch is the \<open>break\<close>, the
  second the \<open>continue\<close>.
\<close>

fun publish_loop ::
  "remote \<Rightarrow> int \<Rightarrow> paper list \<Rightarrow> int \<Rightarrow> error_entry list \<Rightarrow> ident set \<Rightarrow> call list \<Rightarrow>
   int \<times> error_entry list \<times> ident set \<times> call list" where
  "publish_loop remote limit [] created errors published_guids log =
     (created, errors, published_guids, log)"
| "publish_loop remote limit (p # papers) created errors published_guids log =
     (if created \<ge> limit then (created, errors, published_guids, log)
      else if paper_guid p \<in> published_guids then
        publish_loop remote limit papers created errors published_guids log
      else
        let (resp, log') = send remote log (CreatePage p)
        in if status_code resp = 200 then
             publish_loop remote limit papers (created + 1) errors
               (insert (paper_guid p) published_guids) log'
           else
             publish_loop remote limit papers created
               (errors @ [error_of (paper_title p ''Untitled'') resp]) published_guids log')"

text \<open>
  \<open>publish_from_latest_rss(limit)\<close>. The configuration, the path of the latest feed
  document (\<open>get_latest_rss_file()\<close>) and its parsed items (\<open>parse_rss_file\<close>) are
  inputs. The value that \<open>save_publish_history\<close> returns is not read.
\<close>

definition publish_from_latest_rss ::
  "config \<Rightarrow> string option \<Rightarrow> paper list \<Rightarrow> write_fault \<Rightarrow> remote \<Rightarrow> int \<Rightarrow>
   call list \<Rightarrow> ledger_file \<Rightarrow> publish_result \<times> call list \<times> ledger_file" where
  "publish_from_latest_rss cfg latest_rss papers fault remote limit log file =
     (if \<not> notion_enabled cfg then (Failed NotEnabled, log, file)
      else if integration_token cfg = [] \<or> database_id cfg = [] then
        (Failed MissingCredentials, log, file)
      else if \<not> truthy latest_rss then (Failed NoRssFile, log, file)
      else if papers = [] then (Failed NoPapers, log, file)
      else
        let (properties_map, log1) = get_database_properties remote log;
            (properties_map, log2) = ensure_database_properties remote log1 properties_map;
            h = load_publish_history file;
            (created, errors, published_guids, log3) =
               publish_loop remote limit papers 0 [] (guids_of h) log2;
            (saved, file') = save_publish_history fault file (Some published_guids)
        in (Published (created > 0) created errors, log3, file'))"

text \<open>
  \<open>query_database_pages\<close>: the listing is drained page by page; the loop ends when a
  request fails or the remote reports no further page.
\<close>

partial_function (option) query_database_pages ::
  "remote \<Rightarrow> string option \<Rightarrow> page list \<Rightarrow> call list \<Rightarrow> (page list \<times> call list) option" where
  "query_database_pages remote start_cursor pages log =
     (let sent = send remote log (QueryDatabase start_cursor);
          resp = fst sent;
          log' = snd sent
      in if status_code resp \<noteq> 200 then Some (pages, log')
         else if has_more resp \<and> truthy (next_cursor resp) then
           query_database_pages remote (next_cursor resp) (pages @ results resp) log'
         else Some (pages @ results resp, log'))"

declare query_database_pages.simps [code]

text \<open>\<open>{get_page_title(p): p for p in pages}\<close>: a later page replaces an earlier one.\<close>

definition page_by_title :: "page list \<Rightarrow> string \<Rightarrow> page option" where
  "page_by_title pages = map_of (rev (map (\<lambda>p. (page_title p, p)) pages))"

fun backfill_loop ::
  "remote \<Rightarrow> (string \<Rightarrow> page option) \<Rightarrow> paper list \<Rightarrow> int \<Rightarrow> int \<Rightarrow> error_entry list \<Rightarrow>
   ident set \<Rightarrow> call list \<Rightarrow> int \<times> int \<times> error_entry list \<times> ident set \<times> call list" where
  "backfill_loop remote by_title [] updated created errors published_guids log =
     (updated, created, errors, published_guids, log)"
| "backfill_loop remote by_title (p # papers) updated created errors published_guids log =
     (case by_title (paper_title p []) of
        Some pg \<Rightarrow>
          (let (resp, log') = send remote log (UpdatePage (page_id pg) p)
           in if status_code resp = 200 then
                backfill_loop remote by_title papers (updated + 1) created errors
                  published_guids log'
              else
                backfill_loop remote by_title papers updated created
                  (errors @ [error_of (paper_title p []) resp]) published_guids log')
      | None \<Rightarrow>
          (let (resp, log') = send remote log (CreatePage p)
           in if status_code resp = 200 then
                backfill_loop remote by_title papers updated (created + 1) errors
                  (if truthy (paper_guid p) then insert (paper_guid p) published_guids
                   else published_guids) log'
              else
                backfill_loop remote by_title papers updated created
                  (errors @ [error_of (paper_title p []) resp]) published_guids log'))"

text \<open>\<open>backfill_from_latest_rss()\<close>; \<open>None\<close> when the listing never ends.\<close>

definition backfill_from_latest_rss ::
  "config \<Rightarrow> string option \<Rightarrow> paper list \<Rightarrow> write_fault \<Rightarrow> remote \<Rightarrow>
   call list \<Rightarrow> ledger_file \<Rightarrow> (backfill_result \<times> call list \<times> ledger_file) option" where
  "backfill_from_latest_rss cfg latest_rss papers fault remote log file =
     (if \<not> notion_enabled cfg then Some (BackfillFailed NotEnabled, log, file)
      else if integration_token cfg = [] \<or> database_id cfg = [] then
        Some (BackfillFailed MissingCredentials, log, file)
      else if \<not> truthy latest_rss then Some (BackfillFailed NoRssFile, log, file)
      else if papers = [] then Some (BackfillFailed NoPapers, log, file)
      else
        let (properties_map, log1) = get_database_properties remote log;
            (properties_map, log2) = ensure_database_properties remote log1 properties_map
        in case query_database_pages remote None [] log2 of
             None \<Rightarrow> None
           | Some (pages, log3) \<Rightarrow>
               let h = load_publish_history file;
                   (updated, created, errors, published_guids, log4) =
                      backfill_loop remote (page_by_title pages) papers 0 0 [] (guids_of h) log3;
                   (saved, file') = save_publish_history fault file (Some published_guids)
               in Some (Backfilled (updated + created > 0) updated created errors, log4, file'))"

section \<open>Retrying fetch\<close>

text \<open>
  The retry loop of \<open>run_pipeline\<close>. The fetch collaborator is given by what its
  calls do, in order: raise, or return a list. The loop state is \<open>retry_count\<close> and
  \<open>papers\<close>; the number of calls made and of \<open>time.sleep(60)\<close> are counted. The
  result is the exception that escapes or the value of \<open>papers\<close> after the loop;
  \<open>None\<close> when the loop never ends.
\<close>

datatype 'a fetch_outcome = Raises string | Returns "'a list"

definition max_retries :: nat where
  "max_retries = 3"

partial_function (option) fetch_loop ::
  "(nat \<Rightarrow> 'a fetch_outcome) \<Rightarrow> nat \<Rightarrow> 'a list \<Rightarrow> nat \<Rightarrow> nat \<Rightarrow>
   ((string + 'a list) \<times> nat \<times> nat) option" where
  "fetch_loop fetch retry_count papers attempts sleeps =
     (if retry_count < max_retries then
        (case fetch attempts of
           Returns ps \<Rightarrow>
             (if ps \<noteq> [] then Some (Inr ps, Suc attempts, sleeps)
              else fetch_loop fetch retry_count ps (Suc attempts) sleeps)
         | Raises e \<Rightarrow>
             (if Suc retry_count \<ge> max_retries then Some (Inl e, Suc attempts, sleeps)
              else fetch_loop fetch (Suc retry_count) papers (Suc attempts) (Suc sleeps)))
      else Some (Inr papers, attempts, sleeps))"

declare fetch_loop.simps [code]

definition run_pipeline_fetch ::
  "(nat \<Rightarrow> 'a fetch_outcome) \<Rightarrow> ((string + 'a list) \<times> nat \<times> nat) option" where
  "run_pipeline_fetch fetch = fetch_loop fetch 0 [] 0 0"

section \<open>Notions used to state the properties\<close>

text \<open>The set of identities a ledger file holds, as the next call will load it.\<close>

definition ledger :: "ledger_file \<Rightarrow> ident set" where
  "ledger file = guids_of (load_publish_history file)"

text \<open>The calls that an operation added to the log.\<close>

definition new_calls :: "call list \<Rightarrow> call list \<Rightarrow> call list" where
  "new_calls log log' = drop (length log) log'"

text \<open>
  The create requests in a list of calls, each with the status it was answered with, and
  the same for the update requests.
\<close>

fun create_call :: "call \<Rightarrow> (paper \<times> int) list" where
  "create_call (CreatePage p, resp) = [(p, status_code resp)]"
| "create_call (_, resp) = []"

fun update_call :: "call \<Rightarrow> (paper \<times> int) list" where
  "update_call (UpdatePage i p, resp) = [(p, status_code resp)]"
| "update_call (_, resp) = []"

definition create_calls :: "call list \<Rightarrow> (paper \<times> int) list" where
  "create_calls cs = concat (map create_call cs)"

definition update_calls :: "call list \<Rightarrow> (paper \<times> int) list" where
  "update_calls cs = concat (map update_call cs)"

text \<open>The records whose create, or update, request was answered with status 200.\<close>

definition confirmed :: "(paper \<times> int) list \<Rightarrow> paper list" where
  "confirmed rs = map fst (filter (\<lambda>r. snd r = 200) rs)"

definition created_papers :: "call list \<Rightarrow> paper list" where
  "created_papers cs = confirmed (create_calls cs)"

definition updated_papers :: "call list \<Rightarrow> paper list" where
  "updated_papers cs = confirmed (update_calls cs)"

text \<open>The \<open>"success"\<close> and \<open>"created"\<close> entries of the result dictionaries.\<close>

fun publish_success :: "publish_result \<Rightarrow> bool" where
  "publish_success (Failed f) = False"
| "publish_success (Published s c e) = s"

fun backfill_success :: "backfill_result \<Rightarrow> bool" where
  "backfill_success (BackfillFailed f) = False"
| "backfill_success (Backfilled s u c e) = s"

text \<open>
  The \<open>"created"\<close> and \<open>"updated"\<close> counters of the result dictionaries; an early
  return has none and has sent no request: 0.
\<close>

fun publish_created :: "publish_result \<Rightarrow> int" where
  "publish_created (Failed f) = 0"
| "publish_created (Published s c e) = c"

fun backfill_updated :: "backfill_result \<Rightarrow> int" where
  "backfill_updated (BackfillFailed f) = 0"
| "backfill_updated (Backfilled s u c e) = u"

fun backfill_created :: "backfill_result \<Rightarrow> int" where
  "backfill_created (BackfillFailed f) = 0"
| "backfill_created (Backfilled s u c e) = c"

text \<open>
  The ledger that the specification's equation gives after a call: the ledger before,
  with the identities of the records confirmed created or updated.
\<close>

definition ledger_as_claimed :: "ledger_file \<Rightarrow> call list \<Rightarrow> ident set" where
  "ledger_as_claimed file new =
     ledger file \<union> paper_guid ` set (created_papers new @ updated_papers new)"

text \<open>The schema has every well-known property with its type.\<close>

definition schema_satisfied :: "properties_map \<Rightarrow> bool" where
  "schema_satisfied pm =
     (has_type pm ''URL'' ''url'' \<and> has_type pm ''Authors'' ''multi_select'' \<and>
      has_type pm ''Date'' ''date'' \<and> has_type pm ''Keywords'' ''multi_select'' \<and>
      has_type pm ''Abstract'' ''rich_text'' \<and> has_type pm ''ArXiv ID'' ''rich_text'')"

text \<open>
  The schema has every field of the feed's first item with its inferred type, the
  title-like fields apart.
\<close>

definition fields_satisfied :: "properties_map \<Rightarrow> string list \<Rightarrow> bool" where
  "fields_satisfied pm fs =
     list_all (\<lambda>f. guess_notion_type f = ''title'' \<or> has_type pm f (guess_notion_type f)) fs"

section \<open>Scenario inputs\<close>

definition scenario_description :: string where
  "scenario_description =
     ''Authors: A. Smith, B. Lee'' @ [CHR 0x0A] @ ''Categories: cs.AI, cs.LG'' @ [CHR 0x0A] @
     ''We show...''"

definition reconciled_schema :: properties_map where
  "reconciled_schema =
     [(''Name'', Some ''title''), (''URL'', Some ''url''), (''Authors'', Some ''multi_select''),
      (''Date'', Some ''date''), (''Keywords'', Some ''multi_select''),
      (''Abstract'', Some ''rich_text''), (''ArXiv ID'', Some ''rich_text''),
      (''link'', Some ''url''), (''description'', Some ''rich_text''),
      (''pubDate'', Some ''date''), (''guid'', Some ''rich_text'')]"

definition feed_fields :: "string list" where
  "feed_fields = [''title'', ''link'', ''description'', ''pubDate'', ''guid'']"

text \<open>A remote that accepts every request and reports the reconciled schema.\<close>

definition ok_response :: response where
  "ok_response =
     \<lparr>status_code = 200, body_text = [], properties = reconciled_schema, results = [],
      next_cursor = None, has_more = False\<rparr>"

definition accepting_remote :: remote where
  "accepting_remote log req = ok_response"

text \<open>The same remote with one entity, titled \<open>Foo\<close>, in its listing.\<close>

definition listing_remote :: remote where
  "listing_remote log req =
     (case req of
        QueryDatabase c \<Rightarrow> ok_response\<lparr>results := [\<lparr>page_id = ''page-1'', page_title = ''Foo''\<rparr>]\<rparr>
      | _ \<Rightarrow> ok_response)"

definition cfg_ok :: config where
  "cfg_ok = \<lparr>notion_enabled = True, integration_token = ''secret'', database_id = ''db''\<rparr>"

definition paper_x :: "string \<Rightarrow> paper" where
  "paper_x t =
     \<lparr>guid = Some ''X'', link = None, title = Some t, description = None, pubDate = None\<rparr>"

definition paper_foo :: paper where
  "paper_foo =
     \<lparr>guid = Some ''g1'', link = Some ''http://arxiv.org/abs/1'', title = Some ''Foo'',
      description = None, pubDate = None\<rparr>"

definition paper_without_identity :: paper where
  "paper_without_identity =
     \<lparr>guid = None, link = None, title = Some ''Untracked'', description = None,
      pubDate = None\<rparr>"

section \<open>Keyword matcher: the result is the sublist of the configured keywords found\<close>

lemma startswith_prefix: "startswith s p = prefix p s"
  unfolding startswith_def prefix_def
  by (metis append_eq_conv_conj append_take_drop_id)

lemma contains_sublist: "contains s sub = sublist sub s"
  by (induction s) (auto simp: startswith_prefix sublist_Cons_right)

text \<open>
  C6. For every keyword list \<open>K\<close>, title \<open>t\<close> and description \<open>d\<close>, the matcher
  returns the keywords of \<open>K\<close> whose lowercase form occurs as a contiguous part of the
  lowercase form of the text \<open>t d\<close> (title, a space, description), in the order and with
  the casing of \<open>K\<close>; the result is a subsequence of \<open>K\<close>.
\<close>

theorem match_keywords_exact:
  "match_keywords t d (Some K) =
     filter (\<lambda>kw. sublist (lower kw) (lower (t @ '' '' @ d))) K
   \<and> subseq (match_keywords t d (Some K)) K"
  by (simp add: match_keywords_def contains_sublist)

section \<open>Description parsing: the scenario\<close>

text \<open>
  C8, as stated, fails: on the scenario's description the abstract is not
  \<open>We show...\<close>.
\<close>

theorem scenario_abstract_counterexample:
  "extract_authors_and_abstract scenario_description
     \<noteq> Inr ([''A. Smith'', ''B. Lee''], ''We show...'')"
  unfolding scenario_description_def by code_simp

text \<open>
  C8, amended. On the scenario's description the author list is \<open>A. Smith\<close>,
  \<open>B. Lee\<close>, the category list is \<open>cs.AI\<close>, \<open>cs.LG\<close>, and the abstract is
  \<open>Categories: cs.AI, cs.LG We show...\<close>: only the \<open>Authors:\<close> line is left out of
  the abstract, which joins the lines after it with spaces.
\<close>

theorem scenario_description_parsed:
  "extract_authors_and_abstract scenario_description
     = Inr ([''A. Smith'', ''B. Lee''], ''Categories: cs.AI, cs.LG We show...'')
   \<and> extract_categories_from_description scenario_description = Inr [''cs.AI'', ''cs.LG'']"
  unfolding scenario_description_def by code_simp

section \<open>Schema reconciliation of a satisfied schema\<close>

lemma dict_set_nonempty: "dict_set d k v \<noteq> []"
  by (cases d) (auto split: if_splits)

lemma need_unless_Nil: "(need_unless pm k v need = []) = (need = [] \<and> has_type pm k v)"
  by (auto simp add: need_unless_def dict_set_nonempty)

lemma need_from_fields_Nil:
  "(need_from_fields pm fs need = []) = (need = [] \<and> fields_satisfied pm fs)"
  by (induction fs arbitrary: need) (auto simp: Let_def need_unless_Nil fields_satisfied_def)

lemma ensure_database_properties_noop:
  "schema_satisfied pm \<Longrightarrow> ensure_database_properties remote log pm = (pm, log)"
  by (simp add: schema_satisfied_def ensure_database_properties_def need_unless_Nil)

lemma ensure_properties_from_xml_noop:
  "fields_satisfied pm fs \<Longrightarrow> ensure_properties_from_xml remote log pm fs = (pm, log)"
  by (simp add: ensure_properties_from_xml_def need_from_fields_Nil)

text \<open>
  C7. When the property map has every required property with its required type, either
  reconciler returns the map as it is and leaves the log of calls as it is: no request, so
  no patch request, is sent. Hence a reconciliation that starts from the map a first
  reconciliation returned, when that map has every required property, sends nothing.
\<close>

theorem reconcile_satisfied_is_noop:
  "(schema_satisfied pm \<longrightarrow> ensure_database_properties remote log pm = (pm, log))
   \<and> (fields_satisfied pm fs \<longrightarrow> ensure_properties_from_xml remote log pm fs = (pm, log))
   \<and> (schema_satisfied (fst (ensure_database_properties remote log pm)) \<longrightarrow>
        (let r = ensure_database_properties remote log pm
         in ensure_database_properties remote (snd r) (fst r) = r))
   \<and> (fields_satisfied (fst (ensure_properties_from_xml remote log pm fs)) fs \<longrightarrow>
        (let r = ensure_properties_from_xml remote log pm fs
         in ensure_properties_from_xml remote (snd r) (fst r) fs = r))"
  by (simp add: ensure_database_properties_noop ensure_properties_from_xml_noop Let_def)

theorem reconcile_satisfied_is_noop_witness:
  "schema_satisfied reconciled_schema
   \<and> ensure_database_properties accepting_remote [] reconciled_schema = (reconciled_schema, [])
   \<and> fields_satisfied reconciled_schema feed_fields
   \<and> ensure_properties_from_xml accepting_remote [] reconciled_schema feed_fields
       = (reconciled_schema, [])
   \<and> schema_satisfied (fst (ensure_database_properties accepting_remote [] []))
   \<and> snd (ensure_database_properties accepting_remote [] []) \<noteq> []
   \<and> (let r = ensure_database_properties accepting_remote [] []
       in ensure_database_properties accepting_remote (snd r) (fst r) = r)
   \<and> fields_satisfied (fst (ensure_properties_from_xml accepting_remote [] [] feed_fields))
        feed_fields
   \<and> (let r = ensure_properties_from_xml accepting_remote [] [] feed_fields
       in ensure_properties_from_xml accepting_remote (snd r) (fst r) feed_fields = r)"
proof -
  have s: "schema_satisfied reconciled_schema"
    by code_simp
  have f: "fields_satisfied reconciled_schema feed_fields"
    by code_simp
  have e: "ensure_database_properties accepting_remote [] []
             = (reconciled_schema, [(PatchDatabase
                    [(''URL'', ''url''), (''Authors'', ''multi_select''), (''Date'', ''date''),
                     (''Keywords'', ''multi_select''), (''Abstract'', ''rich_text''),
                     (''ArXiv ID'', ''rich_text'')], ok_response),
                  (GetDatabase, ok_response)])"
    by code_simp
  have x: "ensure_properties_from_xml accepting_remote [] [] feed_fields
             = (reconciled_schema, [(PatchDatabase
                    [(''link'', ''url''), (''description'', ''rich_text''), (''pubDate'', ''date''),
                     (''guid'', ''rich_text'')], ok_response),
                  (GetDatabase, ok_response)])"
    by code_simp
  show ?thesis
    using s f e x
      reconcile_satisfied_is_noop [of reconciled_schema accepting_remote "[]" feed_fields]
      reconcile_satisfied_is_noop [of "[]" accepting_remote "[]" feed_fields]
    by simp
qed

section \<open>Retrying fetch: an empty result\<close>

lemma fetch_loop_empty_never_returns:
  "fetch_loop fetch rc ps a s = Some y \<Longrightarrow>
     rc < max_retries \<longrightarrow> (\<forall>n. fetch n = Returns []) \<longrightarrow> False"
proof (induction fetch rc ps a s y
    rule: fetch_loop.raw_induct [rotated 1, consumes 1, case_names step])
  case (step f' fetch rc ps a s y)
  show ?case
  proof (intro impI)
    assume lt: "rc < max_retries" and al: "\<forall>n. fetch n = Returns []"
    have e: "fetch a = Returns []"
      using al by blast
    have "f' fetch rc [] (Suc a) s = Some y"
      using step(2) e lt by simp
    then show False
      using step(1) lt al by blast
  qed
qed

text \<open>
  C4, on the code. With a collaborator that returns an empty list at every call and never
  raises, the retry loop does not return: an empty result is neither accepted nor counted
  as a retry, and the collaborator is called again at once. With a collaborator whose
  first call returns an empty list and whose second call returns one record, the loop
  makes two calls, without a sleep, and the empty result is not what it returns.
\<close>

theorem fetch_empty_result_is_retried:
  "run_pipeline_fetch (\<lambda>n. Returns [] :: paper fetch_outcome) = None
   \<and> run_pipeline_fetch (\<lambda>n. if n = 0 then Returns [] else Returns [paper_foo])
       = Some (Inr [paper_foo], 2, 0)"
proof
  show "run_pipeline_fetch (\<lambda>n. Returns [] :: paper fetch_outcome) = None"
  proof (cases "run_pipeline_fetch (\<lambda>n. Returns [] :: paper fetch_outcome)")
    case None
    then show ?thesis .
  next
    case (Some y)
    then have False
      using fetch_loop_empty_never_returns [of "\<lambda>n. Returns []" 0 "[]" 0 0 y]
      by (simp add: run_pipeline_fetch_def max_retries_def)
    then show ?thesis ..
  qed
  show "run_pipeline_fetch (\<lambda>n. if n = 0 then Returns [] else Returns [paper_foo])
          = Some (Inr [paper_foo], 2, 0)"
    by (simp add: run_pipeline_fetch_def fetch_loop.simps max_retries_def)
qed

section \<open>The calls a publish or backfill run makes\<close>

lemma create_calls_append: "create_calls (a @ b) = create_calls a @ create_calls b"
  by (simp add: create_calls_def)

lemma update_calls_append: "update_calls (a @ b) = update_calls a @ update_calls b"
  by (simp add: update_calls_def)

lemma created_papers_append: "created_papers (a @ b) = created_papers a @ created_papers b"
  by (simp add: created_papers_def confirmed_def create_calls_append)

lemma updated_papers_append: "updated_papers (a @ b) = updated_papers a @ updated_papers b"
  by (simp add: updated_papers_def confirmed_def update_calls_append)

lemma new_calls_append: "new_calls log (log @ new) = new"
  by (simp add: new_calls_def)

lemma created_subset_requested: "set (created_papers cs) \<subseteq> fst ` set (create_calls cs)"
  by (auto simp: created_papers_def confirmed_def)

lemma send_eq: "send remote log req = (remote log req, log @ [(req, remote log req)])"
  by (simp add: send_def Let_def)

lemma get_database_properties_log:
  "snd (get_database_properties remote log) = log @ [(GetDatabase, remote log GetDatabase)]"
  by (simp add: get_database_properties_def send_eq)

lemma ensure_database_properties_log:
  "\<exists>new. snd (ensure_database_properties remote log pm) = log @ new
         \<and> create_calls new = [] \<and> update_calls new = []"
proof (cases "schema_satisfied pm")
  case True
  then have "snd (ensure_database_properties remote log pm) = log @ []
         \<and> create_calls [] = [] \<and> update_calls [] = []"
    by (simp add: ensure_database_properties_noop create_calls_def update_calls_def)
  then show ?thesis by blast
next
  case False
  then show ?thesis
    unfolding ensure_database_properties_def Let_def send_eq get_database_properties_def
    by (auto simp add: create_calls_def update_calls_def schema_satisfied_def need_unless_Nil)
qed

lemma publish_loop_trace:
  "publish_loop remote limit papers c e g log = (c', e', g', log') \<Longrightarrow>
   \<exists>new. log' = log @ new
        \<and> g' = g \<union> paper_guid ` set (created_papers new)
        \<and> c' = c + int (length (created_papers new))
        \<and> update_calls new = []
        \<and> (\<forall>p \<in> fst ` set (create_calls new). paper_guid p \<notin> g)"
proof (induction papers arbitrary: c e g log)
  case Nil
  then have "log' = log @ [] \<and> g' = g \<union> paper_guid ` set (created_papers []) \<and> c' = c + int (length (created_papers []))
     \<and> update_calls [] = [] \<and> (\<forall>p \<in> fst ` set (create_calls []). paper_guid p \<notin> g)"
    by (simp add: created_papers_def confirmed_def create_calls_def update_calls_def)
  then show ?case by blast
next
  case (Cons p papers)
  let ?resp = "remote log (CreatePage p)"
  let ?log1 = "log @ [(CreatePage p, ?resp)]"
  consider (brk) "c \<ge> limit" | (skip) "\<not> c \<ge> limit" "paper_guid p \<in> g"
    | (ok) "\<not> c \<ge> limit" "paper_guid p \<notin> g" "status_code ?resp = 200"
    | (err) "\<not> c \<ge> limit" "paper_guid p \<notin> g" "status_code ?resp \<noteq> 200"
    by blast
  then show ?case
  proof cases
    case brk
    then have "log' = log @ [] \<and> g' = g \<union> paper_guid ` set (created_papers []) \<and> c' = c + int (length (created_papers []))
     \<and> update_calls [] = [] \<and> (\<forall>p \<in> fst ` set (create_calls []). paper_guid p \<notin> g)"
      using Cons.prems by (simp add: created_papers_def confirmed_def create_calls_def update_calls_def)
    then show ?thesis by blast
  next
    case skip
    then have "publish_loop remote limit papers c e g log = (c', e', g', log')"
      using Cons.prems by simp
    then show ?thesis by (rule Cons.IH)
  next
    case ok
    then have "publish_loop remote limit papers (c + 1) e (insert (paper_guid p) g) ?log1 = (c', e', g', log')"
      using Cons.prems by (simp add: send_eq)
    from Cons.IH [OF this] obtain new where
      n: "log' = ?log1 @ new" "g' = insert (paper_guid p) g \<union> paper_guid ` set (created_papers new)"
         "c' = c + 1 + int (length (created_papers new))" "update_calls new = []"
         "\<forall>q \<in> fst ` set (create_calls new). paper_guid q \<notin> insert (paper_guid p) g"
      by blast
    let ?new = "(CreatePage p, ?resp) # new"
    have cc: "create_calls ?new = (p, 200) # create_calls new"
      using ok by (simp add: create_calls_def)
    have cp: "created_papers ?new = p # created_papers new"
      using cc by (simp add: created_papers_def confirmed_def)
    have "log' = log @ ?new \<and> g' = g \<union> paper_guid ` set (created_papers ?new)
        \<and> c' = c + int (length (created_papers ?new)) \<and> update_calls ?new = []
        \<and> (\<forall>q \<in> fst ` set (create_calls ?new). paper_guid q \<notin> g)"
      using n ok unfolding cp cc by (auto simp: update_calls_def)
    then show ?thesis by blast
  next
    case err
    then have "publish_loop remote limit papers c (e @ [error_of (paper_title p ''Untitled'') ?resp]) g ?log1 = (c', e', g', log')"
      using Cons.prems by (simp add: send_eq)
    from Cons.IH [OF this] obtain new where
      n: "log' = ?log1 @ new" "g' = g \<union> paper_guid ` set (created_papers new)"
         "c' = c + int (length (created_papers new))" "update_calls new = []"
         "\<forall>q \<in> fst ` set (create_calls new). paper_guid q \<notin> g"
      by blast
    let ?new = "(CreatePage p, ?resp) # new"
    have cc: "create_calls ?new = (p, status_code ?resp) # create_calls new"
      by (simp add: create_calls_def)
    have cp: "created_papers ?new = created_papers new"
      using cc err by (simp add: created_papers_def confirmed_def)
    have "log' = log @ ?new \<and> g' = g \<union> paper_guid ` set (created_papers ?new)
        \<and> c' = c + int (length (created_papers ?new)) \<and> update_calls ?new = []
        \<and> (\<forall>q \<in> fst ` set (create_calls ?new). paper_guid q \<notin> g)"
      using n err unfolding cp cc by (auto simp: update_calls_def)
    then show ?thesis by blast
  qed
qed

lemma publish_loop_all_ledgered:
  "\<forall>p \<in> set papers. paper_guid p \<in> g \<Longrightarrow> publish_loop remote limit papers c e g log = (c, e, g, log)"
  by (induction papers) auto


lemma publish_early:
  assumes "\<not> notion_enabled cfg \<or> integration_token cfg = [] \<or> database_id cfg = []
           \<or> \<not> truthy rss \<or> papers = []"
  shows "\<exists>f. publish_from_latest_rss cfg rss papers fault remote limit log file = (Failed f, log, file)"
  using assms by (auto simp: publish_from_latest_rss_def)

lemma publish_run:
  assumes run: "publish_from_latest_rss cfg rss papers fault remote limit log file = (res, log', file')"
  shows "\<exists>new. log' = log @ new
     \<and> update_calls new = []
     \<and> (\<forall>p \<in> fst ` set (create_calls new). paper_guid p \<notin> ledger file)
     \<and> ((\<exists>f. res = Failed f \<and> new = [] \<and> file' = file)
        \<or> (\<exists>e. res = Published (created_papers new \<noteq> []) (int (length (created_papers new))) e
              \<and> file' = snd (save_publish_history fault file
                          (Some (ledger file \<union> paper_guid ` set (created_papers new))))))"
proof (cases "\<not> notion_enabled cfg \<or> integration_token cfg = [] \<or> database_id cfg = []
           \<or> \<not> truthy rss \<or> papers = []")
  case True
  from publish_early [OF this] obtain f where
    "publish_from_latest_rss cfg rss papers fault remote limit log file = (Failed f, log, file)"
    by blast
  with run have "res = Failed f" "log' = log" "file' = file"
    by simp_all
  then have "log' = log @ [] \<and> update_calls [] = []
     \<and> (\<forall>p \<in> fst ` set (create_calls []). paper_guid p \<notin> ledger file)
     \<and> (\<exists>f. res = Failed f \<and> [] = ([]::call list) \<and> file' = file)"
    by (simp add: update_calls_def create_calls_def)
  then show ?thesis by blast
next
  case False
  let ?g = "get_database_properties remote log"
  let ?e = "ensure_database_properties remote (snd ?g) (fst ?g)"
  let ?l = "publish_loop remote limit papers 0 [] (ledger file) (snd ?e)"
  obtain n2 where n2: "snd ?e = snd ?g @ n2" "create_calls n2 = []" "update_calls n2 = []"
    using ensure_database_properties_log by blast
  obtain c e g log3 where loop: "?l = (c, e, g, log3)"
    by (cases ?l) auto
  from publish_loop_trace [OF loop] obtain n3 where
    n3: "log3 = snd ?e @ n3" "g = ledger file \<union> paper_guid ` set (created_papers n3)"
        "c = 0 + int (length (created_papers n3))" "update_calls n3 = []"
        "\<forall>p \<in> fst ` set (create_calls n3). paper_guid p \<notin> ledger file"
    by blast
  have "publish_from_latest_rss cfg rss papers fault remote limit log file
          = (Published (c > 0) c e, log3, snd (save_publish_history fault file (Some g)))"
    using False loop
    by (simp add: publish_from_latest_rss_def Let_def split_beta ledger_def)
  with run have r: "res = Published (c > 0) c e" "log' = log3"
      "file' = snd (save_publish_history fault file (Some g))"
    by simp_all
  let ?new = "[(GetDatabase, remote log GetDatabase)] @ n2 @ n3"
  have l: "log' = log @ ?new"
    using r n3 n2 by (simp add: get_database_properties_log)
  have cc: "create_calls ?new = create_calls n3"
    using n2 by (simp add: create_calls_append) (simp add: create_calls_def)
  have uc: "update_calls ?new = []"
    using n2 n3 by (simp add: update_calls_append) (simp add: update_calls_def)
  have cp: "created_papers ?new = created_papers n3"
    using cc by (simp add: created_papers_def)
  have "log' = log @ ?new \<and> update_calls ?new = []
     \<and> (\<forall>p \<in> fst ` set (create_calls ?new). paper_guid p \<notin> ledger file)
     \<and> (\<exists>e. res = Published (created_papers ?new \<noteq> []) (int (length (created_papers ?new))) e
              \<and> file' = snd (save_publish_history fault file
                          (Some (ledger file \<union> paper_guid ` set (created_papers ?new)))))"
    unfolding cp cc using l uc r n3 unfolding cc by auto
  then show ?thesis by blast
qed


lemma query_database_pages_log:
  "query_database_pages remote cur pages log = Some y \<Longrightarrow>
   \<exists>new. snd y = log @ new \<and> create_calls new = [] \<and> update_calls new = []"
proof (induction remote cur pages log y
    rule: query_database_pages.raw_induct [rotated 1, consumes 1, case_names step])
  case (step q remote cur pages log y)
  let ?resp = "remote log (QueryDatabase cur)"
  let ?c = "(QueryDatabase cur, ?resp)"
  have one: "create_calls [?c] = [] \<and> update_calls [?c] = []"
    by (simp add: create_calls_def update_calls_def)
  show ?case
  proof (cases "status_code ?resp = 200 \<and> has_more ?resp \<and> truthy (next_cursor ?resp)")
    case True
    then have "q remote (next_cursor ?resp) (pages @ results ?resp) (log @ [?c]) = Some y"
      using step(2) by (simp add: send_eq Let_def)
    from step(1) [OF this] obtain new where
      n: "snd y = (log @ [?c]) @ new" "create_calls new = []" "update_calls new = []"
      by blast
    have "snd y = log @ (?c # new) \<and> create_calls (?c # new) = [] \<and> update_calls (?c # new) = []"
      using n by (simp add: create_calls_def update_calls_def)
    then show ?thesis by blast
  next
    case False
    then have "snd y = log @ [?c]"
      using step(2) by (auto simp: send_eq Let_def split: if_splits)
    then show ?thesis using one by blast
  qed
qed

lemma backfill_loop_trace:
  "backfill_loop remote bt papers u c e g log = (u', c', e', g', log') \<Longrightarrow>
   \<exists>new. log' = log @ new
        \<and> g' = g \<union> {i \<in> paper_guid ` set (created_papers new). truthy i}
        \<and> c' = c + int (length (created_papers new))
        \<and> u' = u + int (length (updated_papers new))"
proof (induction papers arbitrary: u c e g log)
  case Nil
  then have "log' = log @ [] \<and> g' = g \<union> {i \<in> paper_guid ` set (created_papers []). truthy i}
        \<and> c' = c + int (length (created_papers []))
        \<and> u' = u + int (length (updated_papers []))"
    by (simp add: created_papers_def updated_papers_def confirmed_def create_calls_def update_calls_def)
  then show ?case by blast
next
  case (Cons p papers)
  show ?case
  proof (cases "bt (paper_title p [])")
    case (Some pg)
    let ?resp = "remote log (UpdatePage (page_id pg) p)"
    let ?c = "(UpdatePage (page_id pg) p, ?resp)"
    have cp1: "created_papers [?c] = []"
      by (simp add: created_papers_def confirmed_def create_calls_def)
    show ?thesis
    proof (cases "status_code ?resp = 200")
      case True
      then have "backfill_loop remote bt papers (u + 1) c e g (log @ [?c]) = (u', c', e', g', log')"
        using Cons.prems Some by (simp add: send_eq)
      from Cons.IH [OF this] obtain new where
        n: "log' = (log @ [?c]) @ new" "g' = g \<union> {i \<in> paper_guid ` set (created_papers new). truthy i}"
           "c' = c + int (length (created_papers new))" "u' = u + 1 + int (length (updated_papers new))"
        by blast
      have up: "updated_papers [?c] = [p]"
        using True by (simp add: updated_papers_def confirmed_def update_calls_def)
      have "log' = log @ ([?c] @ new)
        \<and> g' = g \<union> {i \<in> paper_guid ` set (created_papers ([?c] @ new)). truthy i}
        \<and> c' = c + int (length (created_papers ([?c] @ new)))
        \<and> u' = u + int (length (updated_papers ([?c] @ new)))"
        unfolding created_papers_append updated_papers_append cp1 up using n by simp
      then show ?thesis by blast
    next
      case False
      then have "backfill_loop remote bt papers u c (e @ [error_of (paper_title p []) ?resp]) g (log @ [?c]) = (u', c', e', g', log')"
        using Cons.prems Some by (simp add: send_eq)
      from Cons.IH [OF this] obtain new where
        n: "log' = (log @ [?c]) @ new" "g' = g \<union> {i \<in> paper_guid ` set (created_papers new). truthy i}"
           "c' = c + int (length (created_papers new))" "u' = u + int (length (updated_papers new))"
        by blast
      have up: "updated_papers [?c] = []"
        using False by (simp add: updated_papers_def confirmed_def update_calls_def)
      have "log' = log @ ([?c] @ new)
        \<and> g' = g \<union> {i \<in> paper_guid ` set (created_papers ([?c] @ new)). truthy i}
        \<and> c' = c + int (length (created_papers ([?c] @ new)))
        \<and> u' = u + int (length (updated_papers ([?c] @ new)))"
        unfolding created_papers_append updated_papers_append cp1 up using n by simp
      then show ?thesis by blast
    qed
  next
    case None
    let ?resp = "remote log (CreatePage p)"
    let ?c = "(CreatePage p, ?resp)"
    have up1: "updated_papers [?c] = []"
      by (simp add: updated_papers_def confirmed_def update_calls_def)
    show ?thesis
    proof (cases "status_code ?resp = 200")
      case True
      let ?g1 = "if truthy (paper_guid p) then insert (paper_guid p) g else g"
      from True have "backfill_loop remote bt papers u (c + 1) e ?g1 (log @ [?c]) = (u', c', e', g', log')"
        using Cons.prems None by (simp add: send_eq)
      from Cons.IH [OF this] obtain new where
        n: "log' = (log @ [?c]) @ new" "g' = ?g1 \<union> {i \<in> paper_guid ` set (created_papers new). truthy i}"
           "c' = c + 1 + int (length (created_papers new))" "u' = u + int (length (updated_papers new))"
        by blast
      have cp: "created_papers [?c] = [p]"
        using True by (simp add: created_papers_def confirmed_def create_calls_def)
      have "log' = log @ ([?c] @ new)
        \<and> g' = g \<union> {i \<in> paper_guid ` set (created_papers ([?c] @ new)). truthy i}
        \<and> c' = c + int (length (created_papers ([?c] @ new)))
        \<and> u' = u + int (length (updated_papers ([?c] @ new)))"
        unfolding created_papers_append updated_papers_append cp up1 using n by auto
      then show ?thesis by blast
    next
      case False
      then have "backfill_loop remote bt papers u c (e @ [error_of (paper_title p []) ?resp]) g (log @ [?c]) = (u', c', e', g', log')"
        using Cons.prems None by (simp add: send_eq)
      from Cons.IH [OF this] obtain new where
        n: "log' = (log @ [?c]) @ new" "g' = g \<union> {i \<in> paper_guid ` set (created_papers new). truthy i}"
           "c' = c + int (length (created_papers new))" "u' = u + int (length (updated_papers new))"
        by blast
      have cp: "created_papers [?c] = []"
        using False by (simp add: created_papers_def confirmed_def create_calls_def)
      have "log' = log @ ([?c] @ new)
        \<and> g' = g \<union> {i \<in> paper_guid ` set (created_papers ([?c] @ new)). truthy i}
        \<and> c' = c + int (length (created_papers ([?c] @ new)))
        \<and> u' = u + int (length (updated_papers ([?c] @ new)))"
        unfolding created_papers_append updated_papers_append cp up1 using n by simp
      then show ?thesis by blast
    qed
  qed
qed


lemma backfill_early:
  assumes "\<not> notion_enabled cfg \<or> integration_token cfg = [] \<or> database_id cfg = []
           \<or> \<not> truthy rss \<or> papers = []"
  shows "\<exists>f. backfill_from_latest_rss cfg rss papers fault remote log file
               = Some (BackfillFailed f, log, file)"
  using assms by (auto simp: backfill_from_latest_rss_def)

lemma backfill_run:
  assumes run: "backfill_from_latest_rss cfg rss papers fault remote log file = Some (res, log', file')"
  shows "\<exists>new. log' = log @ new
     \<and> ((\<exists>f. res = BackfillFailed f \<and> new = [] \<and> file' = file)
        \<or> (\<exists>e. res = Backfilled
                    (0 < int (length (updated_papers new)) + int (length (created_papers new)))
                    (int (length (updated_papers new))) (int (length (created_papers new))) e
              \<and> file' = snd (save_publish_history fault file
                    (Some (ledger file \<union> {i \<in> paper_guid ` set (created_papers new). truthy i})))))"
proof (cases "\<not> notion_enabled cfg \<or> integration_token cfg = [] \<or> database_id cfg = []
           \<or> \<not> truthy rss \<or> papers = []")
  case True
  from backfill_early [OF this] obtain f where
    "backfill_from_latest_rss cfg rss papers fault remote log file = Some (BackfillFailed f, log, file)"
    by blast
  with run have "res = BackfillFailed f" "log' = log" "file' = file"
    by simp_all
  then have "log' = log @ [] \<and> (\<exists>f. res = BackfillFailed f \<and> [] = ([]::call list) \<and> file' = file)"
    by simp
  then show ?thesis by blast
next
  case False
  let ?g = "get_database_properties remote log"
  let ?e = "ensure_database_properties remote (snd ?g) (fst ?g)"
  let ?q = "query_database_pages remote None [] (snd ?e)"
  obtain n2 where n2: "snd ?e = snd ?g @ n2" "create_calls n2 = []" "update_calls n2 = []"
    using ensure_database_properties_log by blast
  have unf: "backfill_from_latest_rss cfg rss papers fault remote log file =
      (case ?q of None \<Rightarrow> None
       | Some (pages, log3) \<Rightarrow>
          (let r = backfill_loop remote (page_by_title pages) papers 0 0 [] (ledger file) log3
           in Some (Backfilled (fst r + fst (snd r) > 0) (fst r) (fst (snd r)) (fst (snd (snd r))),
                    snd (snd (snd (snd r))),
                    snd (save_publish_history fault file (Some (fst (snd (snd (snd r)))))))))"
    using False
    by (simp add: backfill_from_latest_rss_def Let_def split_beta ledger_def split: option.splits)
  obtain pages log3 where q: "?q = Some (pages, log3)"
    using run unf by (cases ?q) auto
  from query_database_pages_log [OF q] obtain nq where
    nq: "log3 = snd ?e @ nq" "create_calls nq = []" "update_calls nq = []"
    by auto
  let ?l = "backfill_loop remote (page_by_title pages) papers 0 0 [] (ledger file) log3"
  obtain u c e g log4 where loop: "?l = (u, c, e, g, log4)"
    by (cases ?l) auto
  from backfill_loop_trace [OF loop] obtain n3 where
    n3: "log4 = log3 @ n3" "g = ledger file \<union> {i \<in> paper_guid ` set (created_papers n3). truthy i}"
        "c = 0 + int (length (created_papers n3))" "u = 0 + int (length (updated_papers n3))"
    by blast
  have r: "res = Backfilled (u + c > 0) u c e" "log' = log4"
      "file' = snd (save_publish_history fault file (Some g))"
    using run unf q loop by simp_all
  let ?pre = "[(GetDatabase, remote log GetDatabase)] @ n2 @ nq"
  have pre: "create_calls ?pre = [] \<and> update_calls ?pre = []"
    using n2 nq by (simp add: create_calls_append update_calls_append)
      (simp add: create_calls_def update_calls_def)
  let ?new = "?pre @ n3"
  have l: "log' = log @ ?new"
    using r n3 nq n2 by (simp add: get_database_properties_log)
  have cp: "created_papers ?new = created_papers n3"
    unfolding created_papers_def create_calls_append [of ?pre n3] using pre by simp
  have up: "updated_papers ?new = updated_papers n3"
    unfolding updated_papers_def update_calls_append [of ?pre n3] using pre by simp
  have "log' = log @ ?new
     \<and> (\<exists>e. res = Backfilled
                    (0 < int (length (updated_papers ?new)) + int (length (created_papers ?new)))
                    (int (length (updated_papers ?new))) (int (length (created_papers ?new))) e
              \<and> file' = snd (save_publish_history fault file
                    (Some (ledger file \<union> {i \<in> paper_guid ` set (created_papers ?new). truthy i}))))"
    unfolding cp up using l r n3 by simp
  then show ?thesis by blast
qed

lemma map_option_SomeD: "map_option f x = Some y \<Longrightarrow> \<exists>r. x = Some r \<and> f r = y"
  by auto


lemma preamble_log:
  "\<exists>new. snd (ensure_database_properties remote (snd (get_database_properties remote l))
              (fst (get_database_properties remote l))) = l @ new
         \<and> create_calls new = [] \<and> update_calls new = []"
proof -
  obtain n where n: "snd (ensure_database_properties remote (snd (get_database_properties remote l))
              (fst (get_database_properties remote l))) = snd (get_database_properties remote l) @ n"
      "create_calls n = []" "update_calls n = []"
    using ensure_database_properties_log by blast
  let ?new = "[(GetDatabase, remote l GetDatabase)] @ n"
  have "snd (ensure_database_properties remote (snd (get_database_properties remote l))
              (fst (get_database_properties remote l))) = l @ ?new
         \<and> create_calls ?new = [] \<and> update_calls ?new = []"
    using n by (simp add: get_database_properties_log create_calls_append update_calls_append)
      (simp add: create_calls_def update_calls_def)
  then show ?thesis by blast
qed

lemma publish_full_run:
  assumes "notion_enabled cfg" "integration_token cfg \<noteq> []" "database_id cfg \<noteq> []"
    and "truthy rss" "papers \<noteq> []"
  shows "snd (snd (publish_from_latest_rss cfg rss papers fault remote limit log file))
           = snd (save_publish_history fault file
               (Some (ledger file \<union> paper_guid ` set (created_papers (new_calls log
                  (fst (snd (publish_from_latest_rss cfg rss papers fault remote limit log file))))))))"
proof -
  obtain res log' file' where
    run: "publish_from_latest_rss cfg rss papers fault remote limit log file = (res, log', file')"
    by (cases "publish_from_latest_rss cfg rss papers fault remote limit log file") auto
  have nf: "\<forall>f. fst (publish_from_latest_rss cfg rss papers fault remote limit log file) \<noteq> Failed f"
    using assms by (simp add: publish_from_latest_rss_def Let_def split_beta)
  from publish_run [OF run] obtain new where
    n: "log' = log @ new"
       "(\<exists>f. res = Failed f)
        \<or> file' = snd (save_publish_history fault file
                          (Some (ledger file \<union> paper_guid ` set (created_papers new))))"
    by auto
  have "file' = snd (save_publish_history fault file
                          (Some (ledger file \<union> paper_guid ` set (created_papers new))))"
    using n(2) nf by (auto simp: run)
  then show ?thesis
    by (simp add: run n(1) new_calls_append)
qed

section \<open>The ledger after a run\<close>

text \<open>
  C1, as stated, fails for backfill. The remote lists an entity titled \<open>Foo\<close>; the
  feed holds one record titled \<open>Foo\<close> with guid \<open>g1\<close>; the ledger file is absent.
  The update of the record is answered with status 200 (\<open>updated = 1\<close>), and the ledger
  written at the end is empty, where the stated equation gives the ledger \<open>{g1}\<close>.
\<close>

theorem backfill_update_counterexample:
  "(case backfill_from_latest_rss cfg_ok (Some ''feed.xml'') [paper_foo] NoFault listing_remote [] Missing of
      None \<Rightarrow> False
    | Some (res, log', file') \<Rightarrow>
        res = Backfilled True 1 0 []
        \<and> updated_papers (new_calls [] log') = [paper_foo]
        \<and> ledger file' = {}
        \<and> ledger_as_claimed Missing (new_calls [] log') = {Some ''g1''})"
  by code_simp

text \<open>
  C1, amended. When the ledger is written at the end of the call: after a publish call,
  the non-empty identities in the ledger are those of the ledger before together with the
  non-empty identities of the records whose create request was answered with status 200
  in this call; after a backfill call that returns, the ledger is the ledger before
  together with the non-empty identities of the records whose create request was answered
  with status 200 in this call. The identity of a record that was updated, or whose
  request failed, is not added.
\<close>

theorem ledger_after_run:
  "(let r = publish_from_latest_rss cfg rss papers NoFault remote limit log file
    in {i \<in> ledger (snd (snd r)). truthy i}
        = {i \<in> ledger file. truthy i}
          \<union> {i \<in> paper_guid ` set (created_papers (new_calls log (fst (snd r)))). truthy i})
   \<and> (case backfill_from_latest_rss cfg rss papers NoFault remote log file of
         None \<Rightarrow> True
       | Some r \<Rightarrow>
           ledger (snd (snd r)) = ledger file
             \<union> {i \<in> paper_guid ` set (created_papers (new_calls log (fst (snd r)))). truthy i})"
proof
  obtain res log' file' where
    run: "publish_from_latest_rss cfg rss papers NoFault remote limit log file = (res, log', file')"
    by (cases "publish_from_latest_rss cfg rss papers NoFault remote limit log file") auto
  from publish_run [OF run] obtain new where
    n: "log' = log @ new"
       "(new = [] \<and> file' = file)
        \<or> file' = snd (save_publish_history NoFault file
                          (Some (ledger file \<union> paper_guid ` set (created_papers new))))"
    by auto
  have e: "created_papers [] = []"
    by (simp add: created_papers_def confirmed_def create_calls_def)
  have "ledger file' = ledger file \<union> paper_guid ` set (created_papers (new_calls log log'))"
    using n e by (auto simp add: new_calls_append save_publish_history_def ledger_def
        load_publish_history_def guids_of_def)
  then have "{i \<in> ledger file'. truthy i}
        = {i \<in> ledger file. truthy i}
          \<union> {i \<in> paper_guid ` set (created_papers (new_calls log log')). truthy i}"
    by auto
  then show "let r = publish_from_latest_rss cfg rss papers NoFault remote limit log file
    in {i \<in> ledger (snd (snd r)). truthy i}
        = {i \<in> ledger file. truthy i}
          \<union> {i \<in> paper_guid ` set (created_papers (new_calls log (fst (snd r)))). truthy i}"
    by (simp add: run)
next
  show "case backfill_from_latest_rss cfg rss papers NoFault remote log file of
         None \<Rightarrow> True
       | Some r \<Rightarrow>
           ledger (snd (snd r)) = ledger file
             \<union> {i \<in> paper_guid ` set (created_papers (new_calls log (fst (snd r)))). truthy i}"
  proof (cases "backfill_from_latest_rss cfg rss papers NoFault remote log file")
    case None
    then show ?thesis by simp
  next
    case (Some r)
    obtain res log' file' where r: "r = (res, log', file')"
      by (cases r) auto
    from backfill_run [OF Some [unfolded r]] obtain new where
      n: "log' = log @ new"
         "(new = [] \<and> file' = file)
          \<or> file' = snd (save_publish_history NoFault file
                    (Some (ledger file \<union> {i \<in> paper_guid ` set (created_papers new). truthy i})))"
      by auto
    have e: "created_papers [] = []"
      by (simp add: created_papers_def confirmed_def create_calls_def)
    have "ledger file' = ledger file
         \<union> {i \<in> paper_guid ` set (created_papers (new_calls log log')). truthy i}"
      using n e by (auto simp add: new_calls_append save_publish_history_def ledger_def
          load_publish_history_def guids_of_def)
    then show ?thesis
      by (simp add: Some r)
  qed
qed

text \<open>
  An instance: a publish run that creates two records, and a backfill run that updates
  one record and creates another.
\<close>

theorem ledger_after_run_witness:
  "(let r = publish_from_latest_rss cfg_ok (Some ''feed.xml'') [paper_x ''A'', paper_foo]
              NoFault accepting_remote 30 [] (Complete (Some {Some ''old''}))
    in fst r = Published True 2 []
       \<and> created_papers (new_calls [] (fst (snd r))) = [paper_x ''A'', paper_foo]
       \<and> {i \<in> ledger (snd (snd r)). truthy i} = {Some ''old'', Some ''X'', Some ''g1''})
   \<and> map_option (\<lambda>r. (fst r, created_papers (new_calls [] (fst (snd r))), ledger (snd (snd r))))
        (backfill_from_latest_rss cfg_ok (Some ''feed.xml'') [paper_foo, paper_x ''A'']
           NoFault listing_remote [] (Complete (Some {Some ''old''})))
       = Some (Backfilled True 1 1 [], [paper_x ''A''], {Some ''old'', Some ''X''})"
proof -
  let ?file = "Complete (Some {Some ''old''})"
  let ?r = "publish_from_latest_rss cfg_ok (Some ''feed.xml'') [paper_x ''A'', paper_foo]
              NoFault accepting_remote 30 [] ?file"
  let ?b = "backfill_from_latest_rss cfg_ok (Some ''feed.xml'') [paper_foo, paper_x ''A'']
           NoFault listing_remote [] ?file"
  have p: "fst ?r = Published True 2 []"
    by code_simp
  have q: "created_papers (new_calls [] (fst (snd ?r))) = [paper_x ''A'', paper_foo]"
    by code_simp
  have l: "{i \<in> ledger ?file. truthy i} = {Some ''old''}" "ledger ?file = {Some ''old''}"
    by (auto simp add: ledger_def load_publish_history_def guids_of_def truthy_def)
  have g: "{i \<in> paper_guid ` set [paper_x ''A'', paper_foo]. truthy i} = {Some ''X'', Some ''g1''}"
      "{i \<in> paper_guid ` set [paper_x ''A'']. truthy i} = {Some ''X''}"
    by (auto simp add: paper_guid_def paper_x_def paper_foo_def truthy_def)
  have b: "map_option (\<lambda>r. (fst r, created_papers (new_calls [] (fst (snd r))))) ?b
       = Some (Backfilled True 1 1 [], [paper_x ''A''])"
    by code_simp
  from map_option_SomeD [OF b] obtain r where r: "?b = Some r"
    and rr: "(fst r, created_papers (new_calls [] (fst (snd r)))) = (Backfilled True 1 1 [], [paper_x ''A''])"
    by blast
  have r': "fst r = Backfilled True 1 1 []"
      "created_papers (new_calls [] (fst (snd r))) = [paper_x ''A'']"
    using rr by simp_all
  note thm1 = ledger_after_run [of cfg_ok "Some ''feed.xml''" "[paper_x ''A'', paper_foo]"
        accepting_remote 30 "[]" ?file]
  note thm2 = ledger_after_run [of cfg_ok "Some ''feed.xml''" "[paper_foo, paper_x ''A'']"
        listing_remote 30 "[]" ?file]
  have one: "{i \<in> ledger (snd (snd ?r)). truthy i} = {Some ''old'', Some ''X'', Some ''g1''}"
    using conjunct1 [OF thm1] unfolding Let_def q l(1) g(1) by auto
  have two: "ledger (snd (snd r)) = {Some ''old'', Some ''X''}"
    using conjunct2 [OF thm2] unfolding r option.case r' l(2) g(2) by auto
  show ?thesis
    unfolding Let_def r using p q one two r' by simp
qed

section \<open>Records already in the ledger\<close>




section \<open>Two records with one identity\<close>

text \<open>
  C3, as stated, fails: with two records of identity \<open>X\<close>, an absent ledger file and
  a remote that accepts every create, the first publish call returns \<open>created = 1\<close>,
  not 2.
\<close>

theorem shared_identity_counterexample:
  "fst (publish_from_latest_rss cfg_ok (Some ''feed.xml'') [paper_x ''A'', paper_x ''B'']
          NoFault accepting_remote 30 [] Missing) = Published True 1 []
   \<and> fst (publish_from_latest_rss cfg_ok (Some ''feed.xml'') [paper_x ''A'', paper_x ''B'']
          NoFault accepting_remote 30 [] Missing) \<noteq> Published True 2 []"
  by code_simp

text \<open>
  C3, amended. Given two records with the same identity, an empty ledger, a remote that
  accepts every create and a limit of at least 1, a first publish call delivers the first
  record only: its one create request is for the first record, is answered with status
  200, and the result is \<open>created = 1\<close> with no error; the second record is skipped,
  its identity having been added to the set in memory. A second publish call over the
  same two records with the resulting ledger sends no create request and returns
  \<open>created = 0\<close>; the ledger holds the one identity after either call.
\<close>

theorem publish_shared_identity:
  assumes "notion_enabled cfg" "integration_token cfg \<noteq> []" "database_id cfg \<noteq> []"
    and "truthy rss" "0 < limit"
    and "\<forall>l p. status_code (remote l (CreatePage p)) = 200"
    and "paper_guid p1 = paper_guid p2"
    and "ledger file = {}"
  shows "(let r1 = publish_from_latest_rss cfg rss [p1, p2] NoFault remote limit log file;
              r2 = publish_from_latest_rss cfg rss [p1, p2] NoFault remote limit
                     (fst (snd r1)) (snd (snd r1))
          in fst r1 = Published True 1 []
             \<and> create_calls (new_calls log (fst (snd r1))) = [(p1, 200)]
             \<and> created_papers (new_calls log (fst (snd r1))) = [p1]
             \<and> ledger (snd (snd r1)) = {paper_guid p1}
             \<and> fst r2 = Published False 0 []
             \<and> create_calls (new_calls (fst (snd r1)) (fst (snd r2))) = []
             \<and> ledger (snd (snd r2)) = {paper_guid p1})"
proof -
  let ?pre = "\<lambda>l. snd (ensure_database_properties remote (snd (get_database_properties remote l))
              (fst (get_database_properties remote l)))"
  have loop1: "publish_loop remote limit [p1, p2] 0 [] {} l
      = (1, [], {paper_guid p1}, l @ [(CreatePage p1, remote l (CreatePage p1))])" for l
    using assms by (simp add: send_eq)
  have loop2: "publish_loop remote limit [p1, p2] 0 [] {paper_guid p1} l = (0, [], {paper_guid p1}, l)" for l
    using assms by simp
  have l0: "guids_of (load_publish_history file) = {}"
    using assms by (simp add: ledger_def)
  let ?log1 = "?pre log @ [(CreatePage p1, remote (?pre log) (CreatePage p1))]"
  let ?file1 = "Complete (Some {paper_guid p1})"
  have r1: "publish_from_latest_rss cfg rss [p1, p2] NoFault remote limit log file
      = (Published True 1 [], ?log1, ?file1)"
    using assms(1-4)
    by (simp add: publish_from_latest_rss_def Let_def split_beta l0 loop1 save_publish_history_def
        del: publish_loop.simps)
  have l1: "guids_of (load_publish_history ?file1) = {paper_guid p1}"
    by (simp add: load_publish_history_def guids_of_def)
  have r2: "publish_from_latest_rss cfg rss [p1, p2] NoFault remote limit l ?file1
              = (Published False 0 [], ?pre l, ?file1)" for l
    using assms(1-4)
    by (simp add: publish_from_latest_rss_def Let_def split_beta l1 loop2 save_publish_history_def
        del: publish_loop.simps)
  obtain n1 where n1: "?pre log = log @ n1" "create_calls n1 = []"
    using preamble_log by blast
  obtain n2 where n2: "?pre ?log1 = ?log1 @ n2" "create_calls n2 = []"
    using preamble_log by blast
  have st: "status_code (remote (?pre log) (CreatePage p1)) = 200"
    using assms(6) by blast
  have new1: "new_calls log ?log1 = n1 @ [(CreatePage p1, remote (?pre log) (CreatePage p1))]"
    by (simp add: n1(1) new_calls_def)
  have c1: "create_calls (new_calls log ?log1) = [(p1, 200)]"
    unfolding new1 create_calls_append n1(2) using st by (simp add: create_calls_def)
  have c1': "created_papers (new_calls log ?log1) = [p1]"
    unfolding created_papers_def c1 by (simp add: confirmed_def)
  have c2: "create_calls (new_calls ?log1 (?pre ?log1)) = []"
    unfolding n2(1) new_calls_append by (rule n2(2))
  have lg: "ledger ?file1 = {paper_guid p1}"
    by (simp add: ledger_def l1)
  show ?thesis
    unfolding Let_def r1 fst_conv snd_conv r2
    using c1 c1' c2 lg by simp
qed

theorem publish_shared_identity_witness:
  "notion_enabled cfg_ok \<and> integration_token cfg_ok \<noteq> [] \<and> database_id cfg_ok \<noteq> []
   \<and> truthy (Some ''feed.xml'') \<and> (0::int) < 30
   \<and> (\<forall>l p. status_code (accepting_remote l (CreatePage p)) = 200)
   \<and> paper_guid (paper_x ''A'') = paper_guid (paper_x ''B'')
   \<and> paper_x ''A'' \<noteq> paper_x ''B''
   \<and> ledger Missing = {}
   \<and> (let r1 = publish_from_latest_rss cfg_ok (Some ''feed.xml'') [paper_x ''A'', paper_x ''B'']
                 NoFault accepting_remote 30 [] Missing;
           r2 = publish_from_latest_rss cfg_ok (Some ''feed.xml'') [paper_x ''A'', paper_x ''B'']
                  NoFault accepting_remote 30 (fst (snd r1)) (snd (snd r1))
       in fst r1 = Published True 1 []
          \<and> create_calls (new_calls [] (fst (snd r1))) = [(paper_x ''A'', 200)]
          \<and> created_papers (new_calls [] (fst (snd r1))) = [paper_x ''A'']
          \<and> ledger (snd (snd r1)) = {Some ''X''}
          \<and> fst r2 = Published False 0 []
          \<and> create_calls (new_calls (fst (snd r1)) (fst (snd r2))) = []
          \<and> ledger (snd (snd r2)) = {Some ''X''})"
proof -
  have c: "notion_enabled cfg_ok" "integration_token cfg_ok \<noteq> []" "database_id cfg_ok \<noteq> []"
    by (simp_all add: cfg_ok_def)
  have t: "truthy (Some ''feed.xml'')"
    by (simp add: truthy_def)
  have a: "\<forall>l p. status_code (accepting_remote l (CreatePage p)) = 200"
    by (simp add: accepting_remote_def ok_response_def)
  have g: "paper_guid (paper_x ''A'') = paper_guid (paper_x ''B'')"
    by (simp add: paper_guid_def paper_x_def)
  have gx: "paper_guid (paper_x ''A'') = Some ''X''"
    by (simp add: paper_guid_def paper_x_def truthy_def)
  have d: "paper_x ''A'' \<noteq> paper_x ''B''"
    by (simp add: paper_x_def)
  have m: "ledger Missing = {}"
    by (simp add: ledger_def load_publish_history_def guids_of_def)
  have l: "(0::int) < 30"
    by simp
  show ?thesis
    using c t a g d m l
      publish_shared_identity [OF c t l a g m, of "[]"]
    by (simp add: gx)
qed

section \<open>A failure to persist the ledger\<close>

text \<open>
  C5, as stated, fails. One record is created and the dump of the ledger fails after the
  file was opened: the result of the publish step is the result of the run without the
  failure, so the failure is not reported in it, and the ledger file that held the
  identity \<open>old\<close> is damaged and loads as the empty ledger.
\<close>

theorem persist_failure_counterexample:
  "fst (publish_from_latest_rss cfg_ok (Some ''feed.xml'') [paper_foo] DumpFails
          accepting_remote 30 [] (Complete (Some {Some ''old''}))) = Published True 1 []
   \<and> fst (publish_from_latest_rss cfg_ok (Some ''feed.xml'') [paper_foo] NoFault
          accepting_remote 30 [] (Complete (Some {Some ''old''}))) = Published True 1 []
   \<and> snd (snd (publish_from_latest_rss cfg_ok (Some ''feed.xml'') [paper_foo] DumpFails
          accepting_remote 30 [] (Complete (Some {Some ''old''})))) = Damaged
   \<and> ledger (Complete (Some {Some ''old''})) = {Some ''old''}
   \<and> ledger Damaged = {}"
  by code_simp

text \<open>
  C5, amended. When persisting the ledger fails, \<open>save_publish_history\<close> returns
  \<open>False\<close> and raises nothing, and the publish step returns the result, after the
  calls, of the run in which persisting succeeds: the failure is not reported. The write
  is in place and not atomic: when the failure is that of opening the file, the ledger
  file is what it was before the call; when the run reaches the end and the dump fails
  after the file was opened, the file is left damaged and gives the empty ledger. Without
  a failure the file holds the ledger before the call with the identities of the records
  created in the call.
\<close>

theorem persist_failure_unreported:
  "(let r = publish_from_latest_rss cfg rss papers fault remote limit log file;
        r0 = publish_from_latest_rss cfg rss papers NoFault remote limit log file
    in fst (save_publish_history fault file h) = (fault = NoFault)
       \<and> fst r = fst r0
       \<and> fst (snd r) = fst (snd r0)
       \<and> (fault = OpenFails \<longrightarrow> snd (snd r) = file)
       \<and> (notion_enabled cfg \<and> integration_token cfg \<noteq> [] \<and> database_id cfg \<noteq> []
            \<and> truthy rss \<and> papers \<noteq> [] \<longrightarrow>
          (fault = DumpFails \<longrightarrow> snd (snd r) = Damaged \<and> ledger (snd (snd r)) = {})
          \<and> snd (snd r0) = Complete (Some (ledger file
                \<union> paper_guid ` set (created_papers (new_calls log (fst (snd r0))))))))"
proof -
  let ?r = "publish_from_latest_rss cfg rss papers fault remote limit log file"
  let ?ok = "publish_from_latest_rss cfg rss papers NoFault remote limit log file"
  have a: "fst (save_publish_history fault file h) = (fault = NoFault)"
    by (cases fault) (simp_all add: save_publish_history_def)
  have b: "fst ?r = fst ?ok" "fst (snd ?r) = fst (snd ?ok)"
    by (simp_all add: publish_from_latest_rss_def Let_def split_beta)
  have c: "fault = OpenFails \<longrightarrow> snd (snd ?r) = file"
  proof
    assume "fault = OpenFails"
    then show "snd (snd ?r) = file"
      by (simp add: publish_from_latest_rss_def save_publish_history_def Let_def split_beta)
  qed
  have d: "notion_enabled cfg \<and> integration_token cfg \<noteq> [] \<and> database_id cfg \<noteq> []
            \<and> truthy rss \<and> papers \<noteq> [] \<longrightarrow>
          (fault = DumpFails \<longrightarrow> snd (snd ?r) = Damaged \<and> ledger (snd (snd ?r)) = {})
          \<and> snd (snd ?ok) = Complete (Some (ledger file
                \<union> paper_guid ` set (created_papers (new_calls log (fst (snd ?ok))))))"
  proof (intro impI conjI)
    assume h: "notion_enabled cfg \<and> integration_token cfg \<noteq> [] \<and> database_id cfg \<noteq> []
            \<and> truthy rss \<and> papers \<noteq> []"
    show "snd (snd ?ok) = Complete (Some (ledger file
                \<union> paper_guid ` set (created_papers (new_calls log (fst (snd ?ok))))))"
      using h by (subst publish_full_run) (simp_all add: save_publish_history_def)
    assume f: "fault = DumpFails"
    show dm: "snd (snd ?r) = Damaged"
      using h f by (subst publish_full_run) (simp_all add: save_publish_history_def)
    show "ledger (snd (snd ?r)) = {}"
      unfolding dm by (simp add: ledger_def load_publish_history_def guids_of_def)
  qed
  show ?thesis
    unfolding Let_def using a b c d by blast
qed

theorem persist_failure_unreported_witness:
  "notion_enabled cfg_ok \<and> integration_token cfg_ok \<noteq> [] \<and> database_id cfg_ok \<noteq> []
   \<and> truthy (Some ''feed.xml'') \<and> [paper_foo] \<noteq> []
   \<and> fst (save_publish_history OpenFails (Complete (Some {Some ''old''})) (Some {})) = False
   \<and> fst (save_publish_history DumpFails (Complete (Some {Some ''old''})) (Some {})) = False
   \<and> fst (publish_from_latest_rss cfg_ok (Some ''feed.xml'') [paper_foo] NoFault
             accepting_remote 30 [] (Complete (Some {Some ''old''}))) = Published True 1 []
   \<and> fst (publish_from_latest_rss cfg_ok (Some ''feed.xml'') [paper_foo] OpenFails
             accepting_remote 30 [] (Complete (Some {Some ''old''}))) = Published True 1 []
   \<and> fst (publish_from_latest_rss cfg_ok (Some ''feed.xml'') [paper_foo] DumpFails
             accepting_remote 30 [] (Complete (Some {Some ''old''}))) = Published True 1 []
   \<and> snd (snd (publish_from_latest_rss cfg_ok (Some ''feed.xml'') [paper_foo] OpenFails
             accepting_remote 30 [] (Complete (Some {Some ''old''}))))
       = Complete (Some {Some ''old''})
   \<and> snd (snd (publish_from_latest_rss cfg_ok (Some ''feed.xml'') [paper_foo] DumpFails
             accepting_remote 30 [] (Complete (Some {Some ''old''})))) = Damaged
   \<and> ledger (snd (snd (publish_from_latest_rss cfg_ok (Some ''feed.xml'') [paper_foo] DumpFails
             accepting_remote 30 [] (Complete (Some {Some ''old''}))))) = {}
   \<and> snd (snd (publish_from_latest_rss cfg_ok (Some ''feed.xml'') [paper_foo] NoFault
             accepting_remote 30 [] (Complete (Some {Some ''old''}))))
       = Complete (Some {Some ''old'', Some ''g1''})"
proof -
  let ?file = "Complete (Some {Some ''old''})"
  let ?ok = "publish_from_latest_rss cfg_ok (Some ''feed.xml'') [paper_foo] NoFault
             accepting_remote 30 [] ?file"
  have c: "notion_enabled cfg_ok \<and> integration_token cfg_ok \<noteq> [] \<and> database_id cfg_ok \<noteq> []
      \<and> truthy (Some ''feed.xml'') \<and> [paper_foo] \<noteq> []"
    by (simp add: cfg_ok_def truthy_def)
  have r: "fst ?ok = Published True 1 []"
    by code_simp
  have q: "created_papers (new_calls [] (fst (snd ?ok))) = [paper_foo]"
    by code_simp
  have l: "ledger ?file = {Some ''old''}"
    by (simp add: ledger_def load_publish_history_def guids_of_def)
  have g: "paper_guid paper_foo = Some ''g1''"
    by (simp add: paper_guid_def paper_foo_def truthy_def)
  note o = persist_failure_unreported [of cfg_ok "Some ''feed.xml''" "[paper_foo]" OpenFails
      accepting_remote 30 "[]" ?file "Some {}", unfolded Let_def]
  note d = persist_failure_unreported [of cfg_ok "Some ''feed.xml''" "[paper_foo]" DumpFails
      accepting_remote 30 "[]" ?file "Some {}", unfolded Let_def]
  have s0: "snd (snd ?ok) = Complete (Some {Some ''old'', Some ''g1''})"
    using d c unfolding q l by (simp add: g insert_commute)
  have e: "ledger Damaged = {}"
    by (simp add: ledger_def load_publish_history_def guids_of_def)
  show ?thesis
    using c r s0 o d by (simp add: e)
qed

section \<open>A record without identity\<close>

text \<open>
  C9, on the code. A record with neither guid nor link has the identity \<open>None\<close>. With
  an absent ledger file and a remote that accepts the create, publish writes a ledger
  whose one entry is \<open>None\<close>; backfill, on the same input, writes the empty ledger.
\<close>

theorem publish_ledgers_missing_identity:
  "paper_guid paper_without_identity = None
   \<and> snd (snd (publish_from_latest_rss cfg_ok (Some ''feed.xml'') [paper_without_identity]
                 NoFault accepting_remote 30 [] Missing)) = Complete (Some {None})
   \<and> map_option (\<lambda>r. snd (snd r))
        (backfill_from_latest_rss cfg_ok (Some ''feed.xml'') [paper_without_identity]
           NoFault accepting_remote [] Missing) = Some (Complete (Some {}))"
  by code_simp

section \<open>The success flag\<close>

text \<open>
  C10. The success flag of a publish result is true exactly when its \<open>created\<close>
  counter is positive, and the counter is the number of create requests answered with
  status 200 in the call. When the run reaches the loop and every record's identity is in
  the ledger, the result is \<open>success = False\<close>, \<open>created = 0\<close> and no error. The
  success flag of a backfill result is true exactly when \<open>updated + created\<close> is
  positive, the counters being the numbers of update and of create requests answered with
  status 200.
\<close>

theorem success_flag_iff_created:
  "(let r = publish_from_latest_rss cfg rss papers fault remote limit log file
    in publish_success (fst r) = (0 < publish_created (fst r))
       \<and> publish_created (fst r) = int (length (created_papers (new_calls log (fst (snd r))))))
   \<and> (notion_enabled cfg \<and> integration_token cfg \<noteq> [] \<and> database_id cfg \<noteq> [] \<and> truthy rss
        \<and> papers \<noteq> [] \<and> (\<forall>p \<in> set papers. paper_guid p \<in> ledger file) \<longrightarrow>
       fst (publish_from_latest_rss cfg rss papers fault remote limit log file)
         = Published False 0 [])
   \<and> (case backfill_from_latest_rss cfg rss papers fault remote log file of
         None \<Rightarrow> True
       | Some r \<Rightarrow>
           backfill_success (fst r) = (0 < backfill_updated (fst r) + backfill_created (fst r))
           \<and> backfill_updated (fst r) = int (length (updated_papers (new_calls log (fst (snd r)))))
           \<and> backfill_created (fst r) = int (length (created_papers (new_calls log (fst (snd r))))))"
proof (intro conjI impI)
  obtain res0 log0 file0 where
    run: "publish_from_latest_rss cfg rss papers fault remote limit log file = (res0, log0, file0)"
    by (cases "publish_from_latest_rss cfg rss papers fault remote limit log file") auto
  from publish_run [OF run] obtain new where
    n: "log0 = log @ new"
       "(\<exists>f. res0 = Failed f \<and> new = [])
        \<or> (\<exists>e. res0 = Published (created_papers new \<noteq> []) (int (length (created_papers new))) e)"
    by auto
  have e: "created_papers [] = []"
    by (simp add: created_papers_def confirmed_def create_calls_def)
  have "publish_success res0 = (0 < publish_created res0)
       \<and> publish_created res0 = int (length (created_papers (new_calls log log0)))"
    using n e by (auto simp: new_calls_append)
  then show "let r = publish_from_latest_rss cfg rss papers fault remote limit log file
    in publish_success (fst r) = (0 < publish_created (fst r))
       \<and> publish_created (fst r) = int (length (created_papers (new_calls log (fst (snd r)))))"
    by (simp add: run)
next
  assume a: "notion_enabled cfg \<and> integration_token cfg \<noteq> [] \<and> database_id cfg \<noteq> [] \<and> truthy rss
        \<and> papers \<noteq> [] \<and> (\<forall>p \<in> set papers. paper_guid p \<in> ledger file)"
  then have "publish_loop remote limit papers 0 [] (guids_of (load_publish_history file)) l
               = (0, [], guids_of (load_publish_history file), l)" for l
    using publish_loop_all_ledgered [of papers "ledger file"] by (simp add: ledger_def)
  then show "fst (publish_from_latest_rss cfg rss papers fault remote limit log file)
         = Published False 0 []"
    using a by (simp add: publish_from_latest_rss_def Let_def split_beta del: publish_loop.simps)
next
  show "case backfill_from_latest_rss cfg rss papers fault remote log file of
         None \<Rightarrow> True
       | Some r \<Rightarrow>
           backfill_success (fst r) = (0 < backfill_updated (fst r) + backfill_created (fst r))
           \<and> backfill_updated (fst r) = int (length (updated_papers (new_calls log (fst (snd r)))))
           \<and> backfill_created (fst r) = int (length (created_papers (new_calls log (fst (snd r)))))"
  proof (cases "backfill_from_latest_rss cfg rss papers fault remote log file")
    case None
    then show ?thesis by simp
  next
    case (Some r)
    obtain res log' file' where r: "r = (res, log', file')"
      by (cases r) auto
  from backfill_run [OF Some [unfolded r]] obtain new where
    n: "log' = log @ new"
       "(\<exists>f. res = BackfillFailed f \<and> new = [])
        \<or> (\<exists>e. res = Backfilled
                    (0 < int (length (updated_papers new)) + int (length (created_papers new)))
                    (int (length (updated_papers new))) (int (length (created_papers new))) e)"
    by auto
  have e: "created_papers [] = []" "updated_papers [] = []"
    by (simp_all add: created_papers_def updated_papers_def confirmed_def create_calls_def
        update_calls_def)
  have "backfill_success res = (0 < backfill_updated res + backfill_created res)
       \<and> backfill_updated res = int (length (updated_papers (new_calls log log')))
       \<and> backfill_created res = int (length (created_papers (new_calls log log')))"
    using n e by (auto simp: new_calls_append)
  then show ?thesis
    by (simp add: Some r)
  qed
qed

theorem success_flag_iff_created_witness:
  "(notion_enabled cfg_ok \<and> integration_token cfg_ok \<noteq> [] \<and> database_id cfg_ok \<noteq> []
      \<and> truthy (Some ''feed.xml'') \<and> [paper_x ''A'', paper_x ''B''] \<noteq> []
      \<and> paper_guid (paper_x ''A'') \<in> ledger (Complete (Some {Some ''X''}))
      \<and> paper_guid (paper_x ''B'') \<in> ledger (Complete (Some {Some ''X''})))
   \<and> fst (publish_from_latest_rss cfg_ok (Some ''feed.xml'') [paper_x ''A'', paper_x ''B'']
            NoFault accepting_remote 30 [] (Complete (Some {Some ''X''}))) = Published False 0 []
   \<and> map_option fst (backfill_from_latest_rss cfg_ok (Some ''feed.xml'') [paper_foo, paper_x ''A'']
            NoFault listing_remote [] Missing) = Some (Backfilled True 1 1 [])
   \<and> map_option (\<lambda>r. (updated_papers (new_calls [] (fst (snd r))),
                         created_papers (new_calls [] (fst (snd r)))))
        (backfill_from_latest_rss cfg_ok (Some ''feed.xml'') [paper_foo, paper_x ''A'']
            NoFault listing_remote [] Missing) = Some ([paper_foo], [paper_x ''A''])"
proof -
  have h: "notion_enabled cfg_ok \<and> integration_token cfg_ok \<noteq> [] \<and> database_id cfg_ok \<noteq> []
      \<and> truthy (Some ''feed.xml'') \<and> [paper_x ''A'', paper_x ''B''] \<noteq> []
      \<and> paper_guid (paper_x ''A'') \<in> ledger (Complete (Some {Some ''X''}))
      \<and> paper_guid (paper_x ''B'') \<in> ledger (Complete (Some {Some ''X''}))"
    by (simp add: cfg_ok_def truthy_def paper_guid_def paper_x_def ledger_def
        load_publish_history_def guids_of_def)
  have b: "map_option fst (backfill_from_latest_rss cfg_ok (Some ''feed.xml'') [paper_foo, paper_x ''A'']
            NoFault listing_remote [] Missing) = Some (Backfilled True 1 1 [])"
    by code_simp
  have c: "map_option (\<lambda>r. (updated_papers (new_calls [] (fst (snd r))),
                         created_papers (new_calls [] (fst (snd r)))))
        (backfill_from_latest_rss cfg_ok (Some ''feed.xml'') [paper_foo, paper_x ''A'']
            NoFault listing_remote [] Missing) = Some ([paper_foo], [paper_x ''A''])"
    by code_simp
  show ?thesis
    using h b c
      success_flag_iff_created [of cfg_ok "Some ''feed.xml''" "[paper_x ''A'', paper_x ''B'']"
        NoFault accepting_remote 30 "[]" "Complete (Some {Some ''X''})"]
    by simp
qed

end
